theory Spec2Isabelle
  imports Main "HOL-Library.FSet" "HOL-Library.List_Lexorder" "HOL-Library.Char_ord"
begin

section \<open>JSON values as the Python handlers see them\<close>

text \<open>
  \<^verbatim>\<open>request.get_json()\<close> yields Python values. The model keeps the scalar ones: \<^verbatim>\<open>None\<close>,
  booleans, integers and strings. Floats and nested arrays or objects are payload that the
  handlers carry along without looking inside; they are left out of the value type.
\<close>

datatype jval = JNull | JBool bool | JInt int | JStr string

text \<open>Python truthiness, as used by \<^verbatim>\<open>not master_id\<close>, \<^verbatim>\<open>if slave_id:\<close> and so on.\<close>

fun truthy :: "jval \<Rightarrow> bool" where
  "truthy JNull = False"
| "truthy (JBool b) = b"
| "truthy (JInt i) = (i \<noteq> 0)"
| "truthy (JStr s) = (s \<noteq> [])"

text \<open>
  Python's \<^verbatim>\<open>==\<close> and hashing identify \<^verbatim>\<open>True\<close> with \<^verbatim>\<open>1\<close> and \<^verbatim>\<open>False\<close> with \<^verbatim>\<open>0\<close>; no other
  two values of the model are equal. \<open>key_of\<close> picks the representative under which a
  value is stored as a dictionary key.
\<close>

fun key_of :: "jval \<Rightarrow> jval" where
  "key_of (JBool b) = JInt (if b then 1 else 0)"
| "key_of v = v"

definition py_eq :: "jval \<Rightarrow> jval \<Rightarrow> bool" where
  "py_eq a b = (key_of a = key_of b)"

text \<open>\<^verbatim>\<open>action in ["NEW_TRADE", ...]\<close>: membership in a list of string literals.\<close>

definition py_in :: "jval \<Rightarrow> string list \<Rightarrow> bool" where
  "py_in a xs = list_ex (\<lambda>x. py_eq a (JStr x)) xs"

subsection \<open>Formatting values inside an f-string\<close>

definition digit_char :: "nat \<Rightarrow> char" where
  "digit_char n = ''0123456789'' ! n"

function str_nat :: "nat \<Rightarrow> string" where
  "str_nat n = (if n < 10 then [digit_char n] else str_nat (n div 10) @ [digit_char (n mod 10)])"
  by pat_completeness auto
termination
  by (relation "measure id") auto

declare str_nat.simps [simp del]

definition str_int :: "int \<Rightarrow> string" where
  "str_int i = (if i < 0 then CHR ''-'' # str_nat (nat (- i)) else str_nat (nat i))"

fun py_str :: "jval \<Rightarrow> string" where
  "py_str JNull = ''None''"
| "py_str (JBool b) = (if b then ''True'' else ''False'')"
| "py_str (JInt i) = str_int i"
| "py_str (JStr s) = s"

subsection \<open>JSON objects\<close>

text \<open>
  A request body is a JSON object: a Python \<^verbatim>\<open>dict\<close> with string keys, kept as an
  association list. \<open>dget\<close> is \<^verbatim>\<open>d.get(k)\<close>, which answers \<^verbatim>\<open>None\<close> for a missing key, and
  \<open>has_key\<close> is \<^verbatim>\<open>k in d\<close>.
\<close>

type_synonym jdict = "(string \<times> jval) list"

definition dget :: "jdict \<Rightarrow> string \<Rightarrow> jval" where
  "dget d k = (case map_of d k of None \<Rightarrow> JNull | Some v \<Rightarrow> v)"

definition has_key :: "jdict \<Rightarrow> string \<Rightarrow> bool" where
  "has_key d k = (map_of d k \<noteq> None)"

section \<open>The server's storage\<close>

text \<open>
  A queued signal is the request's \<^verbatim>\<open>dict\<close> after the handler has written the two keys
  \<^verbatim>\<open>"server_timestamp"\<close> and \<^verbatim>\<open>"signal_id"\<close> into it. The record keeps the request's object in
  \<open>data\<close> and the two stamped keys as fields of their own, so a stamped key always wins
  over a key of the same name sent by the master. \<open>server_timestamp\<close> is the naive local
  \<^verbatim>\<open>datetime.now()\<close> counted in microseconds; the code stores its \<^verbatim>\<open>isoformat()\<close> text and
  the sweeper reads it back with \<^verbatim>\<open>fromisoformat\<close>, which returns the same instant.
\<close>

record signal =
  data :: jdict
  server_timestamp :: int
  signal_id :: string

record slave_info =
  registered_at :: int
  last_poll :: int

text \<open>
  The three module-level dictionaries. Keys are stored under \<open>key_of\<close>. A processed set
  is a Python \<^verbatim>\<open>set\<close> of signal ids: a finite set with no order of its own.
\<close>

record state =
  signals_queue :: "jval \<Rightarrow> signal list option"
  slaves :: "jval \<Rightarrow> (jval \<Rightarrow> slave_info option) option"
  slave_processed_signals :: "jval \<Rightarrow> string fset option"

definition init_state :: state where
  "init_state = \<lparr>signals_queue = Map.empty, slaves = Map.empty,
                  slave_processed_signals = Map.empty\<rparr>"

text \<open>What a handler answers. \<open>Rejected\<close> is the HTTP 400 answer with its reason.\<close>

datatype reason = NoData | MissingField | InvalidAction | MissingSymbol | MissingIds

datatype response =
    Rejected reason
  | Acknowledged jval
  | Received jval jval jval string
  | PollOk "signal list"
  | Registered jval jval
  | Cleared "nat option" "nat option"
  | NothingToClear

section \<open>\<^verbatim>\<open>upload_signal\<close>\<close>

definition valid_actions :: "string list" where
  "valid_actions = [''NEW_TRADE'', ''NEW_PENDING'', ''MODIFY_TRADE'', ''MODIFY_PENDING'',
                    ''CLOSE_TRADE'', ''DELETE_ORDER'', ''INIT_TEST'', ''HEARTBEAT'']"

text \<open>
  Lines 126 to 132: the stamped signal. \<open>server_time\<close> is the first \<^verbatim>\<open>datetime.now()\<close> of
  the handler (microseconds), \<open>now_ms\<close> is \<^verbatim>\<open>int(datetime.now().timestamp() * 1000)\<close>, the
  second reading, in whole milliseconds.
\<close>

definition make_signal_id :: "jval \<Rightarrow> jval \<Rightarrow> int \<Rightarrow> string" where
  "make_signal_id master_ticket action now_ms =
     py_str master_ticket @ ''_'' @ py_str action @ ''_'' @ str_int now_ms"

definition stamp :: "int \<Rightarrow> int \<Rightarrow> jdict \<Rightarrow> signal" where
  "stamp server_time now_ms d =
     \<lparr>data = d, server_timestamp = server_time,
      signal_id = make_signal_id (dget d ''master_ticket'') (dget d ''action'') now_ms\<rparr>"

text \<open>
  Lines 165 to 177: the scan for an identical queued signal. \<open>same_signal\<close> is the test of
  lines 168 to 172 on one queued signal.
\<close>

definition same_signal :: "jdict \<Rightarrow> signal \<Rightarrow> bool" where
  "same_signal d sig =
     (py_eq (dget (data sig) ''master_ticket'') (dget d ''master_ticket'')
      \<and> py_eq (dget (data sig) ''action'') (dget d ''action'')
      \<and> py_eq (dget (data sig) ''symbol'') (dget d ''symbol''))"

definition is_duplicate :: "jdict \<Rightarrow> signal list \<Rightarrow> bool" where
  "is_duplicate d q = list_ex (same_signal d) q"

text \<open>Lines 138 to 181: the three insertion policies, chosen by the action.\<close>

definition enqueue :: "jdict \<Rightarrow> signal \<Rightarrow> signal list \<Rightarrow> signal list" where
  "enqueue d sg q =
     (if py_in (dget d ''action'') [''MODIFY_TRADE'', ''MODIFY_PENDING''] then q @ [sg]
      else if py_in (dget d ''action'') [''DELETE_ORDER'', ''CLOSE_TRADE''] then
        filter (\<lambda>s. \<not> py_eq (dget (data s) ''master_ticket'') (dget d ''master_ticket'')) q
          @ [sg]
      else if is_duplicate d q then q
      else q @ [sg])"

text \<open>Lines 183 to 187: \<^verbatim>\<open>q[-50:]\<close> when the queue is longer than 50.\<close>

definition cap_queue :: "signal list \<Rightarrow> signal list" where
  "cap_queue q = (if length q > 50 then drop (length q - 50) q else q)"

text \<open>\<^verbatim>\<open>signals_queue[master_id]\<close> after line 136: the stored list, or a new empty one.\<close>

definition queue_of :: "state \<Rightarrow> jval \<Rightarrow> signal list" where
  "queue_of st master_id =
     (case signals_queue st (key_of master_id) of None \<Rightarrow> [] | Some q \<Rightarrow> q)"

definition upload_signal :: "state \<Rightarrow> int \<Rightarrow> int \<Rightarrow> jdict \<Rightarrow> response \<times> state" where
  "upload_signal st server_time now_ms d =
     (let master_id = dget d ''master_id'';
          action = dget d ''action'';
          master_ticket = dget d ''master_ticket''
      in if d = [] then (Rejected NoData, st)
         else if \<not> truthy master_id then (Rejected MissingField, st)
         else if \<not> truthy action then (Rejected MissingField, st)
         else if master_ticket = JNull then (Rejected MissingField, st)
         else if \<not> py_in action valid_actions then (Rejected InvalidAction, st)
         else if \<not> py_in action [''DELETE_ORDER'', ''INIT_TEST'', ''HEARTBEAT'']
                 \<and> \<not> has_key d ''symbol'' then (Rejected MissingSymbol, st)
         else if py_in action [''INIT_TEST'', ''HEARTBEAT''] then (Acknowledged action, st)
         else
           let sg = stamp server_time now_ms d;
               q = cap_queue (enqueue d sg (queue_of st master_id))
           in (Received master_id action master_ticket (signal_id sg),
               st\<lparr>signals_queue := (signals_queue st)(key_of master_id \<mapsto> q)\<rparr>))"

section \<open>\<^verbatim>\<open>register_slave\<close>\<close>

text \<open>\<^verbatim>\<open>slaves[master_id]\<close> after it has been initialised: the stored dictionary, or an empty one.\<close>

definition slaves_of :: "state \<Rightarrow> jval \<Rightarrow> (jval \<Rightarrow> slave_info option)" where
  "slaves_of st master_id =
     (case slaves st (key_of master_id) of None \<Rightarrow> Map.empty | Some r \<Rightarrow> r)"

definition register_slave :: "state \<Rightarrow> int \<Rightarrow> int \<Rightarrow> jdict \<Rightarrow> response \<times> state" where
  "register_slave st t_reg t_poll d =
     (let slave_id = dget d ''slave_id'';
          master_id = dget d ''master_id''
      in if d = [] then (Rejected NoData, st)
         else if \<not> truthy slave_id then (Rejected MissingIds, st)
         else if \<not> truthy master_id then (Rejected MissingIds, st)
         else
           (Registered slave_id master_id,
            st\<lparr>slaves := (slaves st)(key_of master_id \<mapsto>
                    (slaves_of st master_id)(key_of slave_id \<mapsto>
                       \<lparr>registered_at = t_reg, last_poll = t_poll\<rparr>)),
               slave_processed_signals :=
                 (case slave_processed_signals st (key_of slave_id) of
                    None \<Rightarrow> (slave_processed_signals st)(key_of slave_id \<mapsto> {||})
                  | Some p \<Rightarrow> slave_processed_signals st)\<rparr>))"

section \<open>\<^verbatim>\<open>slave_poll\<close>\<close>

text \<open>
  Lines 259 to 263: \<^verbatim>\<open>request.args.get\<close> answers \<^verbatim>\<open>None\<close> for an absent query argument and a
  string otherwise; \<^verbatim>\<open>not slave_id or not master_id\<close> refuses an absent or empty one.
\<close>

fun poll_args :: "string option \<Rightarrow> string option \<Rightarrow> (string \<times> string) option" where
  "poll_args (Some s) (Some m) = (if s = [] then None else if m = [] then None else Some (s, m))"
| "poll_args slave_arg master_arg = None"

text \<open>
  Lines 286 to 302: the first queued signal whose \<^verbatim>\<open>signal_id\<close> is truthy and not in the
  slave's processed set.
\<close>

definition find_unprocessed :: "string fset \<Rightarrow> signal list \<Rightarrow> signal option" where
  "find_unprocessed processed q =
     List.find (\<lambda>signal. signal_id signal \<noteq> [] \<and> signal_id signal |\<notin>| processed) q"

text \<open>
  Lines 304 to 307. \<^verbatim>\<open>list(s)\<close> lists a Python set in the order of its hash table, which
  the language leaves open; the model takes that listing as the parameter \<open>iter\<close>.
  \<^verbatim>\<open>signal_list[-200:]\<close> is the last 200 entries of the listing.
\<close>

definition trim_processed :: "(string fset \<Rightarrow> string list) \<Rightarrow> string fset \<Rightarrow> string fset" where
  "trim_processed iter p =
     (if fcard p > 200 then
        (let signal_list = iter p
         in fset_of_list (drop (length signal_list - 200) signal_list))
      else p)"

definition processed_of :: "state \<Rightarrow> jval \<Rightarrow> string fset" where
  "processed_of st slave_id =
     (case slave_processed_signals st (key_of slave_id) of None \<Rightarrow> {||} | Some p \<Rightarrow> p)"

text \<open>
  \<open>t_reg\<close> is the clock reading an auto-registration stores as \<^verbatim>\<open>registered_at\<close>, \<open>t_poll\<close>
  the one line 276 stores as \<^verbatim>\<open>last_poll\<close>. The query arguments are strings when present.
\<close>

definition slave_poll ::
  "(string fset \<Rightarrow> string list) \<Rightarrow> state \<Rightarrow> int \<Rightarrow> int \<Rightarrow> string option \<Rightarrow> string option
     \<Rightarrow> response \<times> state" where
  "slave_poll iter st t_reg t_poll slave_arg master_arg =
     (case poll_args slave_arg master_arg of
        None \<Rightarrow> (Rejected MissingIds, st)
      | Some (s, m) \<Rightarrow>
        let slave_id = JStr s;
            master_id = JStr m;
            info = (case slaves_of st master_id slave_id of
                      None \<Rightarrow> \<lparr>registered_at = t_reg, last_poll = t_reg\<rparr>
                    | Some i \<Rightarrow> i);
            st1 = st\<lparr>slaves := (slaves st)(master_id \<mapsto>
                        (slaves_of st master_id)(slave_id \<mapsto> info\<lparr>last_poll := t_poll\<rparr>))\<rparr>
        in case signals_queue st master_id of
             None \<Rightarrow> (PollOk [], st1)
           | Some q \<Rightarrow>
               let processed = processed_of st slave_id;
                   signal_to_return = find_unprocessed processed q;
                   processed1 = (case signal_to_return of
                                   None \<Rightarrow> processed
                                 | Some signal \<Rightarrow> finsert (signal_id signal) processed)
               in (PollOk (case signal_to_return of None \<Rightarrow> [] | Some signal \<Rightarrow> [signal]),
                   st1\<lparr>slave_processed_signals :=
                         (slave_processed_signals st)(slave_id \<mapsto> trim_processed iter processed1)\<rparr>))"

section \<open>\<^verbatim>\<open>cleanup_old_signals\<close>\<close>

text \<open>
  \<^verbatim>\<open>(now - t).seconds\<close>: a \<^verbatim>\<open>timedelta\<close> is kept as days, seconds and microseconds with
  \<^verbatim>\<open>0 <= seconds < 86400\<close>, and \<^verbatim>\<open>.seconds\<close> reads the middle part only. The argument is the
  difference in microseconds.
\<close>

definition td_seconds :: "int \<Rightarrow> int" where
  "td_seconds us = (us mod 86400000000) div 1000000"

definition keep_signal :: "int \<Rightarrow> signal \<Rightarrow> bool" where
  "keep_signal now s = (td_seconds (now - server_timestamp s) < 600)"

text \<open>
  One pass of the sweeper's loop body (lines 24 to 47) at clock reading \<open>now\<close>: every
  queue is filtered, and a queue left empty is deleted.
\<close>

definition cleanup_old_signals :: "state \<Rightarrow> int \<Rightarrow> state" where
  "cleanup_old_signals st now =
     st\<lparr>signals_queue := (\<lambda>master_id.
          case signals_queue st master_id of
            None \<Rightarrow> None
          | Some q \<Rightarrow> (let q' = filter (keep_signal now) q
                      in if q' = [] then None else Some q'))\<rparr>"

section \<open>\<^verbatim>\<open>clear_signals\<close>\<close>

definition clear_signals :: "state \<Rightarrow> jdict \<Rightarrow> response \<times> state" where
  "clear_signals st d =
     (let master_id = dget d ''master_id'';
          slave_id = dget d ''slave_id'';
          slave_processed = (if truthy slave_id
                             then map_option fcard (slave_processed_signals st (key_of slave_id))
                             else None);
          master_queue = (if truthy master_id
                          then map_option length (signals_queue st (key_of master_id))
                          else None);
          st' = st\<lparr>slave_processed_signals :=
                      (if slave_processed = None then slave_processed_signals st
                       else (slave_processed_signals st)(key_of slave_id \<mapsto> {||})),
                   signals_queue :=
                      (if master_queue = None then signals_queue st
                       else (signals_queue st)(key_of master_id := None))\<rparr>
      in if slave_processed = None \<and> master_queue = None then (NothingToClear, st')
         else (Cleared slave_processed master_queue, st'))"

section \<open>Observations and runs\<close>

text \<open>\<^verbatim>\<open>slaves[master_id][slave_id]\<close> when both keys are present.\<close>

definition registration :: "state \<Rightarrow> jval \<Rightarrow> jval \<Rightarrow> slave_info option" where
  "registration st master_id slave_id =
     (case slaves st master_id of None \<Rightarrow> None | Some r \<Rightarrow> r slave_id)"

text \<open>
  A run of upload requests, each with its two clock readings, and a run of polls by one
  slave of one master with nothing in between, each with its two clock readings.
\<close>

fun ingest_all :: "state \<Rightarrow> (int \<times> int \<times> jdict) list \<Rightarrow> state" where
  "ingest_all st [] = st"
| "ingest_all st ((server_time, now_ms, d) # rest) =
     ingest_all (snd (upload_signal st server_time now_ms d)) rest"

fun successive_polls ::
  "(string fset \<Rightarrow> string list) \<Rightarrow> state \<Rightarrow> (int \<times> int) list \<Rightarrow> string option \<Rightarrow> string option
     \<Rightarrow> response list \<times> state" where
  "successive_polls iter st [] slave_arg master_arg = ([], st)"
| "successive_polls iter st ((t_reg, t_poll) # clock) slave_arg master_arg =
     (let (r, st1) = slave_poll iter st t_reg t_poll slave_arg master_arg;
          (rs, st2) = successive_polls iter st1 clock slave_arg master_arg
      in (r # rs, st2))"

text \<open>The capacity bound of the queues, as a property of a state.\<close>

abbreviation queues_bounded :: "state \<Rightarrow> bool" where
  "queues_bounded st \<equiv> (\<forall>m q. signals_queue st m = Some q \<longrightarrow> length q \<le> 50)"

text \<open>The signal that an entry of a run of uploads is stamped into.\<close>

definition stamp_req :: "int \<times> int \<times> jdict \<Rightarrow> signal" where
  "stamp_req r = stamp (fst r) (fst (snd r)) (snd (snd r))"

section \<open>Inputs used by the worked examples\<close>

text \<open>A request of master \<^verbatim>\<open>"M"\<close> for symbol \<^verbatim>\<open>"EURUSD"\<close>, and one that lacks the symbol.\<close>

definition ex_req :: "string \<Rightarrow> int \<Rightarrow> jdict" where
  "ex_req action ticket =
     [(''master_id'', JStr ''M''), (''action'', JStr action),
      (''master_ticket'', JInt ticket), (''symbol'', JStr ''EURUSD'')]"

definition ex_req_no_symbol :: "string \<Rightarrow> int \<Rightarrow> jdict" where
  "ex_req_no_symbol action ticket =
     [(''master_id'', JStr ''M''), (''action'', JStr action), (''master_ticket'', JInt ticket)]"

text \<open>The same request for another symbol.\<close>

definition ex_req_sym :: "string \<Rightarrow> int \<Rightarrow> string \<Rightarrow> jdict" where
  "ex_req_sym action ticket symbol =
     [(''master_id'', JStr ''M''), (''action'', JStr action),
      (''master_ticket'', JInt ticket), (''symbol'', JStr symbol)]"

text \<open>
  Three uploads that arrive at three different milliseconds, and three of which the first
  two, both \<^verbatim>\<open>MODIFY_TRADE\<close> of ticket 7, are stamped within the same millisecond.
\<close>

definition ex_fifo_state :: state where
  "ex_fifo_state = ingest_all init_state
     [(0, 1000, ex_req ''NEW_TRADE'' 1), (5000, 1005, ex_req ''MODIFY_TRADE'' 1),
      (9000, 1009, ex_req ''NEW_TRADE'' 2)]"

definition ex_burst_state :: state where
  "ex_burst_state = ingest_all init_state
     [(0, 1000, ex_req ''MODIFY_TRADE'' 7), (500, 1000, ex_req ''MODIFY_TRADE'' 7),
      (1200, 1001, ex_req ''NEW_TRADE'' 8)]"

text \<open>Slave \<^verbatim>\<open>"T"\<close> registers with master \<^verbatim>\<open>"M"\<close> at time 10.\<close>

definition ex_registered_state :: state where
  "ex_registered_state =
     snd (register_slave ex_fifo_state 10 10 [(''slave_id'', JStr ''T''), (''master_id'', JStr ''M'')])"

text \<open>Sixty \<^verbatim>\<open>NEW_TRADE\<close> uploads of master \<^verbatim>\<open>"M"\<close> with the tickets 1 to 60, one per second.\<close>

definition ex_reqs60 :: "(int \<times> int \<times> jdict) list" where
  "ex_reqs60 = map (\<lambda>k. (int k * 1000000, int k * 1000, ex_req ''NEW_TRADE'' (int k))) [1..<61]"

text \<open>
  Three \<^verbatim>\<open>MODIFY_TRADE\<close> uploads for ticket 7 handled within one millisecond, and a single
  upload stamped at time 0.
\<close>

definition ex_same_ms_state :: state where
  "ex_same_ms_state = ingest_all init_state
     [(0, 1000, ex_req ''MODIFY_TRADE'' 7), (300, 1000, ex_req ''MODIFY_TRADE'' 7),
      (700, 1000, ex_req ''MODIFY_TRADE'' 7)]"

definition ex_one_state :: state where
  "ex_one_state = ingest_all init_state [(0, 1000, ex_req ''NEW_TRADE'' 5)]"

text \<open>
  Slave \<^verbatim>\<open>"S"\<close> has been sent the 200 signals of the tickets 2001 to 2200, each stamped at
  its ticket number in seconds, and the queue of master \<^verbatim>\<open>"M"\<close> holds one later signal, a
  \<^verbatim>\<open>MODIFY_TRADE\<close> for the older ticket 1000.
\<close>

definition ex_tracked_ids :: "string list" where
  "ex_tracked_ids =
     map (\<lambda>k. make_signal_id (JInt k) (JStr ''NEW_TRADE'') (k * 1000)) [2001..2200]"

definition ex_full_state :: state where
  "ex_full_state =
     (ingest_all init_state [(1300000000, 1300000, ex_req ''MODIFY_TRADE'' 1000)])
       \<lparr>slave_processed_signals := [JStr ''S'' \<mapsto> fset_of_list ex_tracked_ids]\<rparr>"

section \<open>Basic facts about the value model\<close>

lemma dget_missing: "\<not> has_key d k \<Longrightarrow> dget d k = JNull"
  by (simp add: has_key_def dget_def)

lemma py_eq_refl: "py_eq a a"
  by (simp add: py_eq_def)

lemma py_eq_sym: "py_eq a b \<Longrightarrow> py_eq b a"
  by (simp add: py_eq_def)

lemma py_eq_trans: "py_eq a b \<Longrightarrow> py_eq b c \<Longrightarrow> py_eq a c"
  by (simp add: py_eq_def)

section \<open>Validation\<close>

text \<open>
  Claim C9. A request that lacks \<^verbatim>\<open>master_id\<close>, \<^verbatim>\<open>action\<close> or \<^verbatim>\<open>master_ticket\<close>, or whose action is
  not one of the eight recognised values, or that lacks \<^verbatim>\<open>symbol\<close> for an action other than
  \<^verbatim>\<open>DELETE_ORDER\<close>, \<^verbatim>\<open>INIT_TEST\<close> and \<^verbatim>\<open>HEARTBEAT\<close>, is answered with a rejection, and the
  state that comes back (queues, registrations and processed sets) is the state that went
  in.
\<close>

theorem upload_signal_rejects_invalid:
  assumes "\<not> has_key d ''master_id'' \<or> \<not> has_key d ''action'' \<or> \<not> has_key d ''master_ticket''
         \<or> \<not> py_in (dget d ''action'') valid_actions
         \<or> (\<not> py_in (dget d ''action'') [''DELETE_ORDER'', ''INIT_TEST'', ''HEARTBEAT'']
              \<and> \<not> has_key d ''symbol'')"
  shows "\<exists>r. upload_signal st server_time now_ms d = (Rejected r, st)"
  using assms by (auto simp: upload_signal_def Let_def dget_missing)

theorem upload_signal_rejects_invalid_witness:
  "\<not> has_key (ex_req_no_symbol ''NEW_TRADE'' 5) ''symbol''
   \<and> py_in (dget (ex_req_no_symbol ''NEW_TRADE'' 5) ''action'') valid_actions
   \<and> (\<exists>r. upload_signal init_state 0 1000 (ex_req_no_symbol ''NEW_TRADE'' 5)
             = (Rejected r, init_state))"
proof -
  have no_symbol: "\<not> has_key (ex_req_no_symbol ''NEW_TRADE'' 5) ''symbol''"
    by (simp add: has_key_def ex_req_no_symbol_def)
  have not_exempt: "\<not> py_in (dget (ex_req_no_symbol ''NEW_TRADE'' 5) ''action'')
                        [''DELETE_ORDER'', ''INIT_TEST'', ''HEARTBEAT'']"
    by (simp add: py_in_def py_eq_def dget_def ex_req_no_symbol_def)
  have known: "py_in (dget (ex_req_no_symbol ''NEW_TRADE'' 5) ''action'') valid_actions"
    by (simp add: py_in_def py_eq_def dget_def ex_req_no_symbol_def valid_actions_def)
  from no_symbol not_exempt known
    upload_signal_rejects_invalid [of "ex_req_no_symbol ''NEW_TRADE'' 5" init_state 0 1000]
  show ?thesis by blast
qed

section \<open>Polling\<close>

lemma poll_args_Some:
  "poll_args sa ma = Some (s, m) \<longleftrightarrow> sa = Some s \<and> ma = Some m \<and> s \<noteq> [] \<and> m \<noteq> []"
  by (cases sa; cases ma) (auto split: if_splits)

lemma slave_poll_queue:
  "signals_queue (snd (slave_poll iter st t1 t2 sa ma)) = signals_queue st"
  by (auto simp: slave_poll_def Let_def split: option.splits)

lemma slave_poll_other_processed:
  "k \<notin> JStr ` set_option sa \<Longrightarrow>
   slave_processed_signals (snd (slave_poll iter st t1 t2 sa ma)) k = slave_processed_signals st k"
  by (auto simp: slave_poll_def Let_def poll_args_Some split: option.splits)

lemma slave_poll_other_registration:
  "m \<notin> JStr ` set_option ma \<or> s \<notin> JStr ` set_option sa \<Longrightarrow>
   registration (snd (slave_poll iter st t1 t2 sa ma)) m s = registration st m s"
  by (auto simp: slave_poll_def Let_def poll_args_Some registration_def slaves_of_def
           split: option.splits)

lemma slave_poll_registered_at:
  "registration st m s = Some i \<Longrightarrow>
   \<exists>i'. registration (snd (slave_poll iter st t1 t2 sa ma)) m s = Some i'
        \<and> registered_at i' = registered_at i"
  by (auto simp: slave_poll_def Let_def poll_args_Some registration_def slaves_of_def
           split: option.splits)

lemma register_slave_queue:
  "signals_queue (snd (register_slave st t1 t2 d)) = signals_queue st"
  by (auto simp: register_slave_def Let_def split: option.splits)

lemma upload_signal_other_queue:
  "k \<noteq> key_of (dget d ''master_id'') \<Longrightarrow>
   signals_queue (snd (upload_signal st t ms d)) k = signals_queue st k"
  by (auto simp: upload_signal_def Let_def)

lemma enqueue_keeps:
  "x \<in> set q \<Longrightarrow> x \<notin> set (enqueue d sg q) \<Longrightarrow>
     py_in (dget d ''action'') [''DELETE_ORDER'', ''CLOSE_TRADE'']
     \<and> py_eq (dget (data x) ''master_ticket'') (dget d ''master_ticket'')"
  by (auto simp: enqueue_def split: if_splits)

lemma upload_signal_removes_only:
  assumes "x \<in> set (queue_of st (dget d ''master_id''))"
      and "x \<notin> set (queue_of (snd (upload_signal st t ms d)) (dget d ''master_id''))"
  shows "(py_in (dget d ''action'') [''DELETE_ORDER'', ''CLOSE_TRADE'']
           \<and> py_eq (dget (data x) ''master_ticket'') (dget d ''master_ticket''))
         \<or> length (enqueue d (stamp t ms d) (queue_of st (dget d ''master_id''))) > 50"
proof (cases "length (enqueue d (stamp t ms d) (queue_of st (dget d ''master_id''))) > 50")
  case True
  then show ?thesis by simp
next
  case False
  then have no_cut: "cap_queue (enqueue d (stamp t ms d) (queue_of st (dget d ''master_id'')))
                      = enqueue d (stamp t ms d) (queue_of st (dget d ''master_id''))"
    by (simp add: cap_queue_def)
  from assms no_cut
  have "x \<notin> set (enqueue d (stamp t ms d) (queue_of st (dget d ''master_id'')))"
    by (auto simp: upload_signal_def Let_def queue_of_def split: if_splits)
  with assms(1) show ?thesis using enqueue_keeps by blast
qed

lemma find_unprocessed_Some:
  "find_unprocessed p q = Some y \<Longrightarrow> y \<in> set q \<and> signal_id y \<noteq> [] \<and> signal_id y |\<notin>| p"
  unfolding find_unprocessed_def by (auto simp: find_Some_iff)

lemma slave_poll_returns_untracked:
  "fst (slave_poll iter st t1 t2 (Some s) ma) = PollOk sigs \<Longrightarrow> y \<in> set sigs \<Longrightarrow>
     signal_id y |\<notin>| processed_of st (JStr s)"
  by (auto simp: slave_poll_def Let_def poll_args_Some dest!: find_unprocessed_Some
           split: option.splits)

lemma slave_poll_branch_fst:
  "s \<noteq> [] \<Longrightarrow> m \<noteq> [] \<Longrightarrow> signals_queue st (JStr m) = Some q \<Longrightarrow>
   fst (slave_poll iter st t1 t2 (Some s) (Some m)) =
     PollOk (case find_unprocessed (processed_of st (JStr s)) q of
               None \<Rightarrow> [] | Some x \<Rightarrow> [x])"
  by (auto simp: slave_poll_def Let_def split: option.splits)

lemma slave_poll_branch_processed:
  "s \<noteq> [] \<Longrightarrow> m \<noteq> [] \<Longrightarrow> signals_queue st (JStr m) = Some q \<Longrightarrow>
   processed_of (snd (slave_poll iter st t1 t2 (Some s) (Some m))) (JStr s) =
     trim_processed iter
       (case find_unprocessed (processed_of st (JStr s)) q of
          None \<Rightarrow> processed_of st (JStr s)
        | Some x \<Rightarrow> finsert (signal_id x) (processed_of st (JStr s)))"
  by (auto simp: slave_poll_def Let_def processed_of_def split: option.splits)

lemma slave_poll_no_queue:
  "s \<noteq> [] \<Longrightarrow> m \<noteq> [] \<Longrightarrow> signals_queue st (JStr m) = None \<Longrightarrow>
   fst (slave_poll iter st t1 t2 (Some s) (Some m)) = PollOk []"
  by (auto simp: slave_poll_def Let_def split: option.splits)

lemma fcard_trim_processed: "fcard (trim_processed iter p) \<le> 200"
proof (cases "fcard p > 200")
  case True
  have "fcard (fset_of_list (drop (length (iter p) - 200) (iter p)))
          \<le> length (drop (length (iter p) - 200) (iter p))"
    using card_length [of "drop (length (iter p) - 200) (iter p)"]
    by (simp only: fcard.rep_eq fset_of_list.rep_eq)
  also have "\<dots> \<le> 200" by simp
  finally show ?thesis using True by (simp add: trim_processed_def Let_def)
next
  case False
  then show ?thesis by (simp add: trim_processed_def)
qed

lemma trim_processed_small: "fcard p \<le> 200 \<Longrightarrow> trim_processed iter p = p"
  by (simp add: trim_processed_def)

lemma slave_poll_delivered_tracked:
  assumes got: "fst (slave_poll iter st t1 t2 (Some s) ma) = PollOk [x]"
      and room: "fcard (processed_of st (JStr s)) < 200"
  shows "signal_id x |\<in>| processed_of (snd (slave_poll iter st t1 t2 (Some s) ma)) (JStr s)"
proof -
  from got obtain m where ma: "ma = Some m" and ne: "s \<noteq> []" "m \<noteq> []"
    by (cases ma) (auto simp: slave_poll_def Let_def poll_args_Some split: option.splits if_splits)
  from got ma ne obtain q where q: "signals_queue st (JStr m) = Some q"
    by (cases "signals_queue st (JStr m)") (auto simp: slave_poll_no_queue)
  from got have found: "find_unprocessed (processed_of st (JStr s)) q = Some x"
    unfolding ma slave_poll_branch_fst [OF ne q] by (auto split: option.splits)
  from room have "fcard (finsert (signal_id x) (processed_of st (JStr s))) \<le> 200"
    by (simp add: fcard_finsert_if)
  then show ?thesis
    unfolding ma slave_poll_branch_processed [OF ne q] found
    by (simp add: trim_processed_small)
qed

lemma slave_poll_registration:
  assumes "s \<noteq> []" and "m \<noteq> []"
  shows "registration (snd (slave_poll iter st t1 t2 (Some s) (Some m))) (JStr m) (JStr s)
           = Some \<lparr>registered_at = (case registration st (JStr m) (JStr s) of
                                       None \<Rightarrow> t1 | Some i \<Rightarrow> registered_at i),
                   last_poll = t2\<rparr>"
  using assms
  by (auto simp: slave_poll_def Let_def registration_def slaves_of_def split: option.splits)

text \<open>
  Claim C10, as amended. A poll leaves every master's queue as it was: the same signals in
  the same order. Beyond the queues it leaves every other slave's processed set and every
  other registration as they were. The registration of the polling pair is written in full:
  when the pair was registered it keeps its \<^verbatim>\<open>registered_at\<close> and gets the new \<^verbatim>\<open>last_poll\<close>, and
  when it was not, the poll creates it, with \<^verbatim>\<open>registered_at\<close> set as well (lines 266 to 273).
  Registering a slave does not touch the queues either. An upload leaves the other masters'
  queues alone, and a signal that it removes from its own master's queue was either
  superseded (a \<^verbatim>\<open>CLOSE_TRADE\<close> or \<^verbatim>\<open>DELETE_ORDER\<close> for the same ticket) or cut because the
  queue had grown past 50 entries. The sweeper and the admin clear are the two other
  routes by which a signal leaves a queue.
\<close>

theorem slave_poll_frame:
  "signals_queue (snd (slave_poll iter st t_reg t_poll slave_arg master_arg)) = signals_queue st
   \<and> (\<forall>k. k \<notin> JStr ` set_option slave_arg \<longrightarrow>
          slave_processed_signals (snd (slave_poll iter st t_reg t_poll slave_arg master_arg)) k
            = slave_processed_signals st k)
   \<and> (\<forall>m s. m \<notin> JStr ` set_option master_arg \<or> s \<notin> JStr ` set_option slave_arg \<longrightarrow>
          registration (snd (slave_poll iter st t_reg t_poll slave_arg master_arg)) m s
            = registration st m s)
   \<and> (\<forall>s m. slave_arg = Some s \<and> master_arg = Some m \<and> s \<noteq> [] \<and> m \<noteq> [] \<longrightarrow>
          registration (snd (slave_poll iter st t_reg t_poll slave_arg master_arg)) (JStr m) (JStr s)
            = Some \<lparr>registered_at = (case registration st (JStr m) (JStr s) of
                                        None \<Rightarrow> t_reg | Some i \<Rightarrow> registered_at i),
                    last_poll = t_poll\<rparr>)
   \<and> signals_queue (snd (register_slave st t_reg t_poll d)) = signals_queue st
   \<and> (\<forall>k. k \<noteq> key_of (dget d ''master_id'') \<longrightarrow>
          signals_queue (snd (upload_signal st server_time now_ms d)) k = signals_queue st k)
   \<and> (\<forall>x. x \<in> set (queue_of st (dget d ''master_id''))
          \<and> x \<notin> set (queue_of (snd (upload_signal st server_time now_ms d)) (dget d ''master_id''))
        \<longrightarrow> (py_in (dget d ''action'') [''DELETE_ORDER'', ''CLOSE_TRADE'']
               \<and> py_eq (dget (data x) ''master_ticket'') (dget d ''master_ticket''))
            \<or> length (enqueue d (stamp server_time now_ms d) (queue_of st (dget d ''master_id''))) > 50)"
proof (intro conjI allI impI)
  show "signals_queue (snd (slave_poll iter st t_reg t_poll slave_arg master_arg)) = signals_queue st"
    by (rule slave_poll_queue)
next
  fix k assume "k \<notin> JStr ` set_option slave_arg"
  then show "slave_processed_signals (snd (slave_poll iter st t_reg t_poll slave_arg master_arg)) k
               = slave_processed_signals st k"
    by (rule slave_poll_other_processed)
next
  fix m s assume "m \<notin> JStr ` set_option master_arg \<or> s \<notin> JStr ` set_option slave_arg"
  then show "registration (snd (slave_poll iter st t_reg t_poll slave_arg master_arg)) m s
               = registration st m s"
    by (rule slave_poll_other_registration)
next
  fix s m
  assume args: "slave_arg = Some s \<and> master_arg = Some m \<and> s \<noteq> [] \<and> m \<noteq> []"
  then have "s \<noteq> []" and "m \<noteq> []" by blast+
  then have "registration (snd (slave_poll iter st t_reg t_poll (Some s) (Some m))) (JStr m) (JStr s)
            = Some \<lparr>registered_at = (case registration st (JStr m) (JStr s) of
                                        None \<Rightarrow> t_reg | Some i \<Rightarrow> registered_at i),
                    last_poll = t_poll\<rparr>"
    by (rule slave_poll_registration)
  with args
  show "registration (snd (slave_poll iter st t_reg t_poll slave_arg master_arg)) (JStr m) (JStr s)
            = Some \<lparr>registered_at = (case registration st (JStr m) (JStr s) of
                                        None \<Rightarrow> t_reg | Some i \<Rightarrow> registered_at i),
                    last_poll = t_poll\<rparr>"
    by simp
next
  show "signals_queue (snd (register_slave st t_reg t_poll d)) = signals_queue st"
    by (rule register_slave_queue)
next
  fix k assume "k \<noteq> key_of (dget d ''master_id'')"
  then show "signals_queue (snd (upload_signal st server_time now_ms d)) k = signals_queue st k"
    by (rule upload_signal_other_queue)
next
  fix x
  assume gone: "x \<in> set (queue_of st (dget d ''master_id''))
          \<and> x \<notin> set (queue_of (snd (upload_signal st server_time now_ms d)) (dget d ''master_id''))"
  show "(py_in (dget d ''action'') [''DELETE_ORDER'', ''CLOSE_TRADE'']
               \<and> py_eq (dget (data x) ''master_ticket'') (dget d ''master_ticket''))
            \<or> length (enqueue d (stamp server_time now_ms d) (queue_of st (dget d ''master_id''))) > 50"
    using upload_signal_removes_only [OF conjunct1 [OF gone] conjunct2 [OF gone]] .
qed

theorem slave_poll_frame_witness:
  "signals_queue (snd (slave_poll sorted_list_of_fset ex_registered_state 20 21 (Some ''S'') (Some ''M'')))
     (JStr ''M'')
     = Some [stamp 0 1000 (ex_req ''NEW_TRADE'' 1), stamp 5000 1005 (ex_req ''MODIFY_TRADE'' 1),
             stamp 9000 1009 (ex_req ''NEW_TRADE'' 2)]
   \<and> slave_processed_signals
         (snd (slave_poll sorted_list_of_fset ex_registered_state 20 21 (Some ''S'') (Some ''M'')))
         (JStr ''T'') = Some {||}
   \<and> registration
         (snd (slave_poll sorted_list_of_fset ex_registered_state 20 21 (Some ''S'') (Some ''M'')))
         (JStr ''M'') (JStr ''T'') = Some \<lparr>registered_at = 10, last_poll = 10\<rparr>
   \<and> registration
         (snd (slave_poll sorted_list_of_fset ex_registered_state 20 21 (Some ''T'') (Some ''M'')))
         (JStr ''M'') (JStr ''T'') = Some \<lparr>registered_at = 10, last_poll = 21\<rparr>
   \<and> registration ex_registered_state (JStr ''M'') (JStr ''S'') = None
   \<and> registration
         (snd (slave_poll sorted_list_of_fset ex_registered_state 20 21 (Some ''S'') (Some ''M'')))
         (JStr ''M'') (JStr ''S'') = Some \<lparr>registered_at = 20, last_poll = 21\<rparr>
   \<and> signals_queue (snd (upload_signal ex_fifo_state 12000 1012 (ex_req ''CLOSE_TRADE'' 1)))
         (JStr ''N'') = None
   \<and> stamp 0 1000 (ex_req ''NEW_TRADE'' 1)
         \<notin> set (queue_of (snd (upload_signal ex_fifo_state 12000 1012 (ex_req ''CLOSE_TRADE'' 1)))
                  (JStr ''M''))
   \<and> py_eq (dget (data (stamp 0 1000 (ex_req ''NEW_TRADE'' 1))) ''master_ticket'')
           (dget (ex_req ''CLOSE_TRADE'' 1) ''master_ticket'')"
proof -
  let ?poll = "\<lambda>s. snd (slave_poll sorted_list_of_fset ex_registered_state 20 21 (Some s) (Some ''M''))"
  let ?up = "snd (upload_signal ex_fifo_state 12000 1012 (ex_req ''CLOSE_TRADE'' 1))"
  let ?x = "stamp 0 1000 (ex_req ''NEW_TRADE'' 1)"
  note frame_S = slave_poll_frame [of sorted_list_of_fset ex_registered_state 20 21 "Some ''S''"
      "Some ''M''" "ex_req ''CLOSE_TRADE'' 1" 12000 1012]
  note frame_T = slave_poll_frame [of sorted_list_of_fset ex_registered_state 20 21 "Some ''T''"
      "Some ''M''" "ex_req ''CLOSE_TRADE'' 1" 12000 1012]
  note frame_up = slave_poll_frame [of sorted_list_of_fset ex_fifo_state 20 21 "Some ''S''"
      "Some ''M''" "ex_req ''CLOSE_TRADE'' 1" 12000 1012]
  have queue0: "signals_queue ex_registered_state (JStr ''M'')
     = Some [stamp 0 1000 (ex_req ''NEW_TRADE'' 1), stamp 5000 1005 (ex_req ''MODIFY_TRADE'' 1),
             stamp 9000 1009 (ex_req ''NEW_TRADE'' 2)]"
    by code_simp
  have proc0: "slave_processed_signals ex_registered_state (JStr ''T'') = Some {||}"
    by code_simp
  have reg0: "registration ex_registered_state (JStr ''M'') (JStr ''T'')
                = Some \<lparr>registered_at = 10, last_poll = 10\<rparr>"
    by code_simp
  have reg_S: "registration ex_registered_state (JStr ''M'') (JStr ''S'') = None"
    by code_simp
  have other0: "signals_queue ex_fifo_state (JStr ''N'') = None"
    by code_simp
  have key0: "JStr ''N'' \<noteq> key_of (dget (ex_req ''CLOSE_TRADE'' 1) ''master_id'')"
    by (simp add: ex_req_def dget_def)
  have gone: "?x \<notin> set (queue_of ?up (JStr ''M''))"
    by code_simp
  have c1: "signals_queue (?poll ''S'') (JStr ''M'') = signals_queue ex_registered_state (JStr ''M'')"
    using frame_S by simp
  have c2: "slave_processed_signals (?poll ''S'') (JStr ''T'')
              = slave_processed_signals ex_registered_state (JStr ''T'')"
    using frame_S by simp
  have c3: "registration (?poll ''S'') (JStr ''M'') (JStr ''T'')
              = registration ex_registered_state (JStr ''M'') (JStr ''T'')"
    using frame_S by simp
  have c4: "registration (?poll ''T'') (JStr ''M'') (JStr ''T'')
              = Some \<lparr>registered_at = 10, last_poll = 21\<rparr>"
    using frame_T by (simp add: reg0)
  have c5: "registration (?poll ''S'') (JStr ''M'') (JStr ''S'')
              = Some \<lparr>registered_at = 20, last_poll = 21\<rparr>"
    using frame_S by (simp add: reg_S)
  have c6: "signals_queue ?up (JStr ''N'') = signals_queue ex_fifo_state (JStr ''N'')"
    using frame_up key0 by blast
  have c7: "py_eq (dget (data ?x) ''master_ticket'') (dget (ex_req ''CLOSE_TRADE'' 1) ''master_ticket'')"
    by (simp add: stamp_def ex_req_def dget_def py_eq_def)
  show ?thesis
    using c1 c2 c3 c4 c5 c6 c7 gone queue0 proc0 reg0 reg_S other0 by simp
qed

text \<open>
  The claim as first stated, that a poll writes nothing of a registration but its
  \<^verbatim>\<open>last_poll\<close>, fails for a pair that is not registered: slave \<^verbatim>\<open>"S"\<close> has no registration with
  master \<^verbatim>\<open>"M"\<close>, and its first poll creates one whose \<^verbatim>\<open>registered_at\<close> is the poll's own clock
  reading.
\<close>

theorem slave_poll_frame_counterexample:
  "registration ex_fifo_state (JStr ''M'') (JStr ''S'') = None
   \<and> registration
         (snd (slave_poll sorted_list_of_fset ex_fifo_state 20 21 (Some ''S'') (Some ''M'')))
         (JStr ''M'') (JStr ''S'') = Some \<lparr>registered_at = 20, last_poll = 21\<rparr>"
  by code_simp

text \<open>
  Claim C2. While the id of a signal \<open>x\<close> is in a slave's processed set, a poll by that
  slave, of any master, returns neither \<open>x\<close> nor any other signal carrying that id, whether
  or not \<open>x\<close> is still queued. And a poll that delivers \<open>x\<close> leaves its id in the slave's
  processed set, as long as the set held fewer than 200 ids before, so that the delivery
  does not reach the trim.
\<close>

theorem slave_poll_at_most_once:
  "(signal_id x |\<in>| processed_of st (JStr s) \<longrightarrow>
      (\<forall>sigs y. fst (slave_poll iter st t_reg t_poll (Some s) master_arg) = PollOk sigs
                 \<and> y \<in> set sigs \<longrightarrow> signal_id y \<noteq> signal_id x))
   \<and> (fst (slave_poll iter st t_reg t_poll (Some s) master_arg) = PollOk [x]
        \<and> fcard (processed_of st (JStr s)) < 200 \<longrightarrow>
      signal_id x |\<in>| processed_of (snd (slave_poll iter st t_reg t_poll (Some s) master_arg)) (JStr s))"
proof (intro conjI allI impI)
  fix sigs y
  assume tracked: "signal_id x |\<in>| processed_of st (JStr s)"
     and got: "fst (slave_poll iter st t_reg t_poll (Some s) master_arg) = PollOk sigs \<and> y \<in> set sigs"
  from got have "signal_id y |\<notin>| processed_of st (JStr s)"
    using slave_poll_returns_untracked by blast
  with tracked show "signal_id y \<noteq> signal_id x" by auto
next
  assume "fst (slave_poll iter st t_reg t_poll (Some s) master_arg) = PollOk [x]
            \<and> fcard (processed_of st (JStr s)) < 200"
  then show "signal_id x |\<in>| processed_of (snd (slave_poll iter st t_reg t_poll (Some s) master_arg)) (JStr s)"
    using slave_poll_delivered_tracked by blast
qed

theorem slave_poll_at_most_once_witness:
  "fst (slave_poll sorted_list_of_fset ex_fifo_state 20 21 (Some ''S'') (Some ''M''))
     = PollOk [stamp 0 1000 (ex_req ''NEW_TRADE'' 1)]
   \<and> fcard (processed_of ex_fifo_state (JStr ''S'')) < 200
   \<and> signal_id (stamp 0 1000 (ex_req ''NEW_TRADE'' 1))
        |\<in>| processed_of (snd (slave_poll sorted_list_of_fset ex_fifo_state 20 21 (Some ''S'') (Some ''M'')))
              (JStr ''S'')
   \<and> stamp 0 1000 (ex_req ''NEW_TRADE'' 1)
        \<in> set (queue_of (snd (slave_poll sorted_list_of_fset ex_fifo_state 20 21 (Some ''S'') (Some ''M'')))
                 (JStr ''M''))
   \<and> fst (slave_poll sorted_list_of_fset
             (snd (slave_poll sorted_list_of_fset ex_fifo_state 20 21 (Some ''S'') (Some ''M'')))
             30 31 (Some ''S'') (Some ''M''))
        = PollOk [stamp 5000 1005 (ex_req ''MODIFY_TRADE'' 1)]
   \<and> signal_id (stamp 5000 1005 (ex_req ''MODIFY_TRADE'' 1))
        \<noteq> signal_id (stamp 0 1000 (ex_req ''NEW_TRADE'' 1))"
proof -
  let ?x = "stamp 0 1000 (ex_req ''NEW_TRADE'' 1)"
  let ?y = "stamp 5000 1005 (ex_req ''MODIFY_TRADE'' 1)"
  let ?st1 = "snd (slave_poll sorted_list_of_fset ex_fifo_state 20 21 (Some ''S'') (Some ''M''))"
  have first: "fst (slave_poll sorted_list_of_fset ex_fifo_state 20 21 (Some ''S'') (Some ''M''))
                 = PollOk [?x]"
    by code_simp
  have room: "fcard (processed_of ex_fifo_state (JStr ''S'')) < 200"
    by code_simp
  have queued: "?x \<in> set (queue_of ?st1 (JStr ''M''))"
    by code_simp
  have second: "fst (slave_poll sorted_list_of_fset ?st1 30 31 (Some ''S'') (Some ''M'')) = PollOk [?y]"
    by code_simp
  from first room
    slave_poll_at_most_once [of ?x ex_fifo_state "''S''" sorted_list_of_fset 20 21 "Some ''M''"]
  have tracked: "signal_id ?x |\<in>| processed_of ?st1 (JStr ''S'')"
    by blast
  from tracked second
    slave_poll_at_most_once [of ?x ?st1 "''S''" sorted_list_of_fset 30 31 "Some ''M''"]
  have "signal_id ?y \<noteq> signal_id ?x"
    by simp
  with first room tracked queued second show ?thesis by simp
qed

text \<open>
  When the three queued signals carry non-empty, pairwise different ids and the processed
  set is far from its trim, four polls in a row return them in queue order.
\<close>

lemma successive_polls_four:
  "fst (successive_polls iter st [c1, c2, c3, c4] sa ma) =
     (let st1 = snd (slave_poll iter st (fst c1) (snd c1) sa ma);
          st2 = snd (slave_poll iter st1 (fst c2) (snd c2) sa ma);
          st3 = snd (slave_poll iter st2 (fst c3) (snd c3) sa ma)
      in [fst (slave_poll iter st (fst c1) (snd c1) sa ma),
          fst (slave_poll iter st1 (fst c2) (snd c2) sa ma),
          fst (slave_poll iter st2 (fst c3) (snd c3) sa ma),
          fst (slave_poll iter st3 (fst c4) (snd c4) sa ma)])"
  by (cases c1; cases c2; cases c3; cases c4) (simp add: split_beta Let_def)

lemma fifo_three:
  assumes q: "signals_queue st (JStr m) = Some [A, B, C]"
      and ne: "s \<noteq> []" "m \<noteq> []"
      and ids: "signal_id A \<noteq> []" "signal_id B \<noteq> []" "signal_id C \<noteq> []"
      and dist: "distinct [signal_id A, signal_id B, signal_id C]"
      and fresh: "signal_id A |\<notin>| processed_of st (JStr s)"
                 "signal_id B |\<notin>| processed_of st (JStr s)"
                 "signal_id C |\<notin>| processed_of st (JStr s)"
      and room: "fcard (processed_of st (JStr s)) \<le> 197"
  shows "fst (successive_polls iter st [c1, c2, c3, c4] (Some s) (Some m))
           = [PollOk [A], PollOk [B], PollOk [C], PollOk []]"
proof -
  define p0 where "p0 = processed_of st (JStr s)"
  define st1 where "st1 = snd (slave_poll iter st (fst c1) (snd c1) (Some s) (Some m))"
  define st2 where "st2 = snd (slave_poll iter st1 (fst c2) (snd c2) (Some s) (Some m))"
  define st3 where "st3 = snd (slave_poll iter st2 (fst c3) (snd c3) (Some s) (Some m))"
  have q1: "signals_queue st1 (JStr m) = Some [A, B, C]"
    using q by (simp add: st1_def slave_poll_queue)
  have q2: "signals_queue st2 (JStr m) = Some [A, B, C]"
    using q1 by (simp add: st2_def slave_poll_queue)
  have q3: "signals_queue st3 (JStr m) = Some [A, B, C]"
    using q2 by (simp add: st3_def slave_poll_queue)
  have f0: "find_unprocessed p0 [A, B, C] = Some A"
    using ids fresh by (auto simp: find_unprocessed_def p0_def)
  have r1: "fst (slave_poll iter st (fst c1) (snd c1) (Some s) (Some m)) = PollOk [A]"
    using slave_poll_branch_fst [OF ne q] f0 by (simp add: p0_def)
  have n1: "fcard (finsert (signal_id A) p0) \<le> 198"
    using room by (simp add: fcard_finsert_if p0_def)
  have p1: "processed_of st1 (JStr s) = finsert (signal_id A) p0"
    using slave_poll_branch_processed [OF ne q] f0 n1
    by (simp add: p0_def st1_def trim_processed_small)
  have f1: "find_unprocessed (finsert (signal_id A) p0) [A, B, C] = Some B"
    using ids fresh dist by (auto simp: find_unprocessed_def p0_def)
  have r2: "fst (slave_poll iter st1 (fst c2) (snd c2) (Some s) (Some m)) = PollOk [B]"
    using slave_poll_branch_fst [OF ne q1] f1 by (simp add: p1)
  have n2: "fcard (finsert (signal_id B) (finsert (signal_id A) p0)) \<le> 199"
    using n1 by (simp add: fcard_finsert_if)
  have p2: "processed_of st2 (JStr s) = finsert (signal_id B) (finsert (signal_id A) p0)"
    using slave_poll_branch_processed [OF ne q1] f1 n2
    by (simp add: p1 st2_def trim_processed_small)
  have f2: "find_unprocessed (finsert (signal_id B) (finsert (signal_id A) p0)) [A, B, C] = Some C"
    using ids fresh dist by (auto simp: find_unprocessed_def p0_def)
  have r3: "fst (slave_poll iter st2 (fst c3) (snd c3) (Some s) (Some m)) = PollOk [C]"
    using slave_poll_branch_fst [OF ne q2] f2 by (simp add: p2)
  have n3: "fcard (finsert (signal_id C) (finsert (signal_id B) (finsert (signal_id A) p0))) \<le> 200"
    using n2 by (simp add: fcard_finsert_if)
  have p3: "processed_of st3 (JStr s)
              = finsert (signal_id C) (finsert (signal_id B) (finsert (signal_id A) p0))"
    using slave_poll_branch_processed [OF ne q2] f2 n3
    by (simp add: p2 st3_def trim_processed_small)
  have f3: "find_unprocessed (finsert (signal_id C) (finsert (signal_id B) (finsert (signal_id A) p0)))
              [A, B, C] = None"
    by (simp add: find_unprocessed_def)
  have r4: "fst (slave_poll iter st3 (fst c4) (snd c4) (Some s) (Some m)) = PollOk []"
    using slave_poll_branch_fst [OF ne q3] f3 by (simp add: p3)
  show ?thesis
    using r1 r2 r3 r4
    by (simp add: successive_polls_four Let_def st1_def st2_def st3_def)
qed

text \<open>
  Claim C1, on the code. Two \<^verbatim>\<open>MODIFY_TRADE\<close> uploads for ticket 7 that are stamped in the same
  millisecond get the same \<^verbatim>\<open>signal_id\<close>. With a third signal behind them the queue is
  \<open>[A, B, C]\<close> and a new slave has none of their ids, yet its polls return \<open>A\<close>, then \<open>C\<close>,
  then nothing: \<open>B\<close> is never sent, because its id entered the processed set with \<open>A\<close>.
\<close>

theorem slave_poll_fifo_burst:
  "signals_queue ex_burst_state (JStr ''M'')
     = Some [stamp 0 1000 (ex_req ''MODIFY_TRADE'' 7), stamp 500 1000 (ex_req ''MODIFY_TRADE'' 7),
             stamp 1200 1001 (ex_req ''NEW_TRADE'' 8)]
   \<and> processed_of ex_burst_state (JStr ''S'') = {||}
   \<and> signal_id (stamp 0 1000 (ex_req ''MODIFY_TRADE'' 7)) = ''7_MODIFY_TRADE_1000''
   \<and> signal_id (stamp 500 1000 (ex_req ''MODIFY_TRADE'' 7)) = ''7_MODIFY_TRADE_1000''
   \<and> fst (successive_polls sorted_list_of_fset ex_burst_state [(20, 21), (30, 31), (40, 41), (50, 51)]
            (Some ''S'') (Some ''M''))
       = [PollOk [stamp 0 1000 (ex_req ''MODIFY_TRADE'' 7)],
          PollOk [stamp 1200 1001 (ex_req ''NEW_TRADE'' 8)], PollOk [], PollOk []]
   \<and> fst (successive_polls sorted_list_of_fset ex_burst_state [(20, 21), (30, 31), (40, 41), (50, 51)]
            (Some ''S'') (Some ''M''))
       \<noteq> [PollOk [stamp 0 1000 (ex_req ''MODIFY_TRADE'' 7)],
          PollOk [stamp 500 1000 (ex_req ''MODIFY_TRADE'' 7)],
          PollOk [stamp 1200 1001 (ex_req ''NEW_TRADE'' 8)], PollOk []]"
  by code_simp

section \<open>Ingestion\<close>

lemma py_in_JStr: "py_in (JStr a) xs \<longleftrightarrow> a \<in> set xs"
  by (auto simp: py_in_def py_eq_def list_ex_iff)

lemma upload_signal_accepted:
  assumes "truthy (dget d ''master_id'')"
      and "dget d ''master_ticket'' \<noteq> JNull"
      and "dget d ''action'' = JStr a"
      and "a \<in> set [''NEW_TRADE'', ''NEW_PENDING'', ''MODIFY_TRADE'', ''MODIFY_PENDING'',
                    ''CLOSE_TRADE'', ''DELETE_ORDER'']"
      and "a = ''DELETE_ORDER'' \<or> has_key d ''symbol''"
  shows "upload_signal st t ms d =
           (Received (dget d ''master_id'') (JStr a) (dget d ''master_ticket'')
                     (signal_id (stamp t ms d)),
            st\<lparr>signals_queue := (signals_queue st)(key_of (dget d ''master_id'') \<mapsto>
                  cap_queue (enqueue d (stamp t ms d) (queue_of st (dget d ''master_id''))))\<rparr>)"
proof -
  from assms(1) have "d \<noteq> []" by (auto simp: dget_def)
  moreover from assms(4) have "a \<noteq> []" by auto
  ultimately show ?thesis
    using assms
    by (auto simp: upload_signal_def Let_def py_in_JStr valid_actions_def)
qed

lemma upload_signal_accepted_queue:
  assumes "truthy (dget d ''master_id'')"
      and "dget d ''master_ticket'' \<noteq> JNull"
      and "dget d ''action'' = JStr a"
      and "a \<in> set [''NEW_TRADE'', ''NEW_PENDING'', ''MODIFY_TRADE'', ''MODIFY_PENDING'',
                    ''CLOSE_TRADE'', ''DELETE_ORDER'']"
      and "a = ''DELETE_ORDER'' \<or> has_key d ''symbol''"
  shows "queue_of (snd (upload_signal st t ms d)) (dget d ''master_id'')
           = cap_queue (enqueue d (stamp t ms d) (queue_of st (dget d ''master_id'')))"
  by (simp add: upload_signal_accepted [OF assms] queue_of_def)

lemma cap_queue_drop: "cap_queue q = drop (length q - 50) q"
  by (simp add: cap_queue_def)

lemma length_cap_queue: "length (cap_queue q) \<le> 50"
  by (simp add: cap_queue_def)

lemma cap_queue_snoc: "cap_queue (q @ [x]) = drop (length q - 49) q @ [x]"
  by (simp add: cap_queue_def)

lemma filter_drop_none: "\<forall>x \<in> set q. \<not> P x \<Longrightarrow> filter P (drop k q) = []"
  by (auto simp: filter_empty_conv dest: in_set_dropD)

lemma filter_cap_queue_snoc:
  assumes "\<forall>x \<in> set q. \<not> P x" and "P x"
  shows "filter P (cap_queue (q @ [x])) = [x]"
  using assms by (simp add: cap_queue_snoc filter_drop_none)

lemma same_signal_stamp: "same_signal d (stamp t ms d)"
  by (simp add: same_signal_def stamp_def py_eq_refl)

lemma is_duplicate_iff: "is_duplicate d q \<longleftrightarrow> (\<exists>s \<in> set q. same_signal d s)"
  by (simp add: is_duplicate_def list_ex_iff)

lemma cap_queue_idem: "cap_queue (cap_queue q) = cap_queue q"
  by (simp add: cap_queue_def)

lemma last_cap_queue_snoc: "last (cap_queue (q @ [x])) = x"
  by (simp add: cap_queue_snoc)

lemma enqueue_supersede:
  assumes "dget d ''action'' = JStr ''CLOSE_TRADE'' \<or> dget d ''action'' = JStr ''DELETE_ORDER''"
  shows "enqueue d sg q =
           filter (\<lambda>s. \<not> py_eq (dget (data s) ''master_ticket'') (dget d ''master_ticket'')) q @ [sg]"
  using assms by (auto simp: enqueue_def py_in_JStr)

lemma enqueue_new:
  assumes "dget d ''action'' = JStr ''NEW_TRADE'' \<or> dget d ''action'' = JStr ''NEW_PENDING''"
  shows "enqueue d sg q = (if is_duplicate d q then q else q @ [sg])"
  using assms by (auto simp: enqueue_def py_in_JStr)

text \<open>
  Claim C3. An accepted \<^verbatim>\<open>CLOSE_TRADE\<close> or \<^verbatim>\<open>DELETE_ORDER\<close> for ticket \<open>t\<close> turns the master's
  queue into the old queue without its signals for ticket \<open>t\<close> (whatever their action),
  followed by the new signal, and then cut to the last 50. Afterwards the stamped close or
  delete is the last entry and the only entry for ticket \<open>t\<close>; this holds from any state, in
  particular right after a \<^verbatim>\<open>NEW_TRADE\<close> for the same ticket.
\<close>

theorem upload_signal_supersedes:
  assumes "truthy (dget d ''master_id'')"
      and "dget d ''master_ticket'' \<noteq> JNull"
      and "dget d ''action'' = JStr ''CLOSE_TRADE'' \<and> has_key d ''symbol''
           \<or> dget d ''action'' = JStr ''DELETE_ORDER''"
  shows "queue_of (snd (upload_signal st t ms d)) (dget d ''master_id'')
           = cap_queue
               (filter (\<lambda>s. \<not> py_eq (dget (data s) ''master_ticket'') (dget d ''master_ticket''))
                  (queue_of st (dget d ''master_id'')) @ [stamp t ms d])
         \<and> filter (\<lambda>s. py_eq (dget (data s) ''master_ticket'') (dget d ''master_ticket''))
             (queue_of (snd (upload_signal st t ms d)) (dget d ''master_id'')) = [stamp t ms d]
         \<and> last (queue_of (snd (upload_signal st t ms d)) (dget d ''master_id'')) = stamp t ms d
         \<and> filter (\<lambda>s. py_eq (dget (data s) ''master_ticket'') (dget d ''master_ticket''))
             (queue_of (ingest_all st [(t0, ms0, d0), (t, ms, d)]) (dget d ''master_id''))
             = [stamp t ms d]"
proof -
  let ?same = "\<lambda>s. py_eq (dget (data s) ''master_ticket'') (dget d ''master_ticket'')"
  have after: "queue_of (snd (upload_signal st' t ms d)) (dget d ''master_id'')
                 = cap_queue (filter (\<lambda>s. \<not> ?same s) (queue_of st' (dget d ''master_id''))
                              @ [stamp t ms d])" for st'
  proof -
    have act: "dget d ''action'' = JStr ''CLOSE_TRADE'' \<or> dget d ''action'' = JStr ''DELETE_ORDER''"
      using assms(3) by blast
    have "queue_of (snd (upload_signal st' t ms d)) (dget d ''master_id'')
            = cap_queue (enqueue d (stamp t ms d) (queue_of st' (dget d ''master_id'')))"
    proof (cases "dget d ''action'' = JStr ''DELETE_ORDER''")
      case True
      show ?thesis
        by (rule upload_signal_accepted_queue [OF assms(1,2) True]) simp_all
    next
      case False
      with assms(3) have close: "dget d ''action'' = JStr ''CLOSE_TRADE''" and sym: "has_key d ''symbol''"
        by blast+
      show ?thesis
        by (rule upload_signal_accepted_queue [OF assms(1,2) close]) (simp_all add: sym)
    qed
    then show ?thesis
      by (simp add: enqueue_supersede [OF act])
  qed
  have own: "?same (stamp t ms d)"
    by (simp add: stamp_def py_eq_refl)
  have only: "filter ?same (queue_of (snd (upload_signal st' t ms d)) (dget d ''master_id''))
                = [stamp t ms d]" for st'
    unfolding after by (rule filter_cap_queue_snoc) (simp_all add: own)
  have "ingest_all st [(t0, ms0, d0), (t, ms, d)]
          = snd (upload_signal (snd (upload_signal st t0 ms0 d0)) t ms d)"
    by simp
  then show ?thesis
    using after [of st] only [of st] only [of "snd (upload_signal st t0 ms0 d0)"]
    by (simp add: last_cap_queue_snoc)
qed

theorem upload_signal_supersedes_witness:
  "queue_of (ingest_all init_state [(0, 1000, ex_req ''NEW_TRADE'' 5)]) (JStr ''M'')
     = [stamp 0 1000 (ex_req ''NEW_TRADE'' 5)]
   \<and> queue_of (ingest_all init_state [(0, 1000, ex_req ''NEW_TRADE'' 5),
                                       (7000, 1007, ex_req ''CLOSE_TRADE'' 5)]) (JStr ''M'')
     = [stamp 7000 1007 (ex_req ''CLOSE_TRADE'' 5)]
   \<and> filter (\<lambda>s. py_eq (dget (data s) ''master_ticket'') (JInt 5))
        (queue_of (ingest_all init_state [(0, 1000, ex_req ''NEW_TRADE'' 5),
                                          (7000, 1007, ex_req ''CLOSE_TRADE'' 5)]) (JStr ''M''))
     = [stamp 7000 1007 (ex_req ''CLOSE_TRADE'' 5)]"
proof -
  have fields: "dget (ex_req ''CLOSE_TRADE'' 5) ''master_id'' = JStr ''M''"
      "dget (ex_req ''CLOSE_TRADE'' 5) ''master_ticket'' = JInt 5"
      "dget (ex_req ''CLOSE_TRADE'' 5) ''action'' = JStr ''CLOSE_TRADE''"
      "has_key (ex_req ''CLOSE_TRADE'' 5) ''symbol''"
    by (simp_all add: ex_req_def dget_def has_key_def)
  have before: "queue_of (ingest_all init_state [(0, 1000, ex_req ''NEW_TRADE'' 5)]) (JStr ''M'')
                  = [stamp 0 1000 (ex_req ''NEW_TRADE'' 5)]"
    by code_simp
  have both: "queue_of (ingest_all init_state [(0, 1000, ex_req ''NEW_TRADE'' 5),
                                       (7000, 1007, ex_req ''CLOSE_TRADE'' 5)]) (JStr ''M'')
     = [stamp 7000 1007 (ex_req ''CLOSE_TRADE'' 5)]"
    by code_simp
  from upload_signal_supersedes [of "ex_req ''CLOSE_TRADE'' 5" init_state 7000 1007 0 1000
         "ex_req ''NEW_TRADE'' 5"]
  have "filter (\<lambda>s. py_eq (dget (data s) ''master_ticket'') (JInt 5))
        (queue_of (ingest_all init_state [(0, 1000, ex_req ''NEW_TRADE'' 5),
                                          (7000, 1007, ex_req ''CLOSE_TRADE'' 5)]) (JStr ''M''))
     = [stamp 7000 1007 (ex_req ''CLOSE_TRADE'' 5)]"
    by (simp add: fields)
  with before both show ?thesis by simp
qed

text \<open>
  Claim C4. An accepted \<^verbatim>\<open>NEW_TRADE\<close> or \<^verbatim>\<open>NEW_PENDING\<close> is appended exactly when no queued
  signal of the master has an equal ticket and an equal action and an equal symbol, all
  three at once; otherwise the queue keeps its entries and the answer is still
  \<^verbatim>\<open>received\<close>. When no queued signal matched and the same ticket, action and symbol are
  uploaded a second time right away, the second upload changes nothing and the queue
  holds exactly one entry with that ticket, action and symbol, the first.
\<close>

theorem upload_signal_dedup:
  assumes "truthy (dget d ''master_id'')"
      and "dget d ''master_ticket'' \<noteq> JNull"
      and "dget d ''action'' = JStr a"
      and "a = ''NEW_TRADE'' \<or> a = ''NEW_PENDING''"
      and "has_key d ''symbol''"
      and "dget d2 ''master_id'' = dget d ''master_id''"
      and "dget d2 ''action'' = JStr a"
      and "py_eq (dget d2 ''master_ticket'') (dget d ''master_ticket'')"
      and "py_eq (dget d2 ''symbol'') (dget d ''symbol'')"
      and "has_key d2 ''symbol''"
  shows "queue_of (snd (upload_signal st t ms d)) (dget d ''master_id'')
           = cap_queue
               (if \<exists>s \<in> set (queue_of st (dget d ''master_id'')).
                      py_eq (dget (data s) ''master_ticket'') (dget d ''master_ticket'')
                      \<and> py_eq (dget (data s) ''action'') (dget d ''action'')
                      \<and> py_eq (dget (data s) ''symbol'') (dget d ''symbol'')
                then queue_of st (dget d ''master_id'')
                else queue_of st (dget d ''master_id'') @ [stamp t ms d])
         \<and> fst (upload_signal st t ms d)
             = Received (dget d ''master_id'') (JStr a) (dget d ''master_ticket'')
                        (signal_id (stamp t ms d))
         \<and> ((\<forall>s \<in> set (queue_of st (dget d ''master_id'')).
                \<not> (py_eq (dget (data s) ''master_ticket'') (dget d ''master_ticket'')
                   \<and> py_eq (dget (data s) ''action'') (dget d ''action'')
                   \<and> py_eq (dget (data s) ''symbol'') (dget d ''symbol''))) \<longrightarrow>
              queue_of (ingest_all st [(t, ms, d), (t2, ms2, d2)]) (dget d ''master_id'')
                = queue_of (snd (upload_signal st t ms d)) (dget d ''master_id'')
              \<and> filter (\<lambda>s. py_eq (dget (data s) ''master_ticket'') (dget d ''master_ticket'')
                             \<and> py_eq (dget (data s) ''action'') (dget d ''action'')
                             \<and> py_eq (dget (data s) ''symbol'') (dget d ''symbol''))
                  (queue_of (ingest_all st [(t, ms, d), (t2, ms2, d2)]) (dget d ''master_id''))
                = [stamp t ms d])"
proof -
  let ?m = "dget d ''master_id''"
  let ?q0 = "queue_of st ?m"
  let ?st1 = "snd (upload_signal st t ms d)"
  from assms(4) have a: "a \<in> set [''NEW_TRADE'', ''NEW_PENDING'', ''MODIFY_TRADE'',
                    ''MODIFY_PENDING'', ''CLOSE_TRADE'', ''DELETE_ORDER'']"
    by auto
  have sym: "a = ''DELETE_ORDER'' \<or> has_key d ''symbol''"
    using assms(5) by simp
  have act: "dget d ''action'' = JStr ''NEW_TRADE'' \<or> dget d ''action'' = JStr ''NEW_PENDING''"
    using assms(3,4) by auto
  have first: "queue_of ?st1 ?m = cap_queue (if \<exists>s \<in> set ?q0. same_signal d s then ?q0
                                              else ?q0 @ [stamp t ms d])"
    by (simp add: upload_signal_accepted_queue [OF assms(1,2,3) a sym] enqueue_new [OF act]
                  is_duplicate_iff)
  have answer: "fst (upload_signal st t ms d)
             = Received ?m (JStr a) (dget d ''master_ticket'') (signal_id (stamp t ms d))"
    by (simp add: upload_signal_accepted [OF assms(1,2,3) a sym])
  have twice: "queue_of (ingest_all st [(t, ms, d), (t2, ms2, d2)]) ?m = queue_of ?st1 ?m
               \<and> filter (same_signal d) (queue_of (ingest_all st [(t, ms, d), (t2, ms2, d2)]) ?m)
                   = [stamp t ms d]"
    if fresh: "\<forall>s \<in> set ?q0. \<not> same_signal d s"
  proof -
    from fresh have q1: "queue_of ?st1 ?m = cap_queue (?q0 @ [stamp t ms d])"
      using first by auto
    have truthy2: "truthy (dget d2 ''master_id'')"
      using assms(1,6) by simp
    have ticket2: "dget d2 ''master_ticket'' \<noteq> JNull"
      using assms(2,8) by (cases "dget d2 ''master_ticket''"; cases "dget d ''master_ticket''")
                          (auto simp: py_eq_def)
    have sym2: "a = ''DELETE_ORDER'' \<or> has_key d2 ''symbol''"
      using assms(10) by simp
    have act2: "dget d2 ''action'' = JStr ''NEW_TRADE'' \<or> dget d2 ''action'' = JStr ''NEW_PENDING''"
      using assms(7,4) by auto
    have "same_signal d2 (stamp t ms d)"
      using assms(3,7,8,9) by (simp add: same_signal_def stamp_def py_eq_def)
    moreover have "stamp t ms d \<in> set (cap_queue (?q0 @ [stamp t ms d]))"
      by (simp add: cap_queue_snoc)
    ultimately have dup: "is_duplicate d2 (queue_of ?st1 ?m)"
      unfolding is_duplicate_iff q1 by blast
    have "queue_of (snd (upload_signal ?st1 t2 ms2 d2)) (dget d2 ''master_id'')
            = cap_queue (enqueue d2 (stamp t2 ms2 d2) (queue_of ?st1 (dget d2 ''master_id'')))"
      by (rule upload_signal_accepted_queue [OF truthy2 ticket2 assms(7) a sym2])
    then have second: "queue_of (snd (upload_signal ?st1 t2 ms2 d2)) ?m = queue_of ?st1 ?m"
      using dup by (simp add: assms(6) enqueue_new [OF act2] q1 cap_queue_idem)
    have one: "filter (same_signal d) (cap_queue (?q0 @ [stamp t ms d])) = [stamp t ms d]"
      by (rule filter_cap_queue_snoc) (use fresh same_signal_stamp in auto)
    show ?thesis
      using second one by (simp add: q1)
  qed
  show ?thesis
    using first answer twice unfolding same_signal_def by blast
qed

theorem upload_signal_dedup_witness:
  "queue_of (ingest_all init_state [(0, 1000, ex_req ''NEW_TRADE'' 5)]) (JStr ''M'')
     = [stamp 0 1000 (ex_req ''NEW_TRADE'' 5)]
   \<and> queue_of (ingest_all init_state [(0, 1000, ex_req ''NEW_TRADE'' 5),
                                       (3000, 1003, ex_req ''NEW_TRADE'' 5)]) (JStr ''M'')
     = [stamp 0 1000 (ex_req ''NEW_TRADE'' 5)]
   \<and> fst (upload_signal (ingest_all init_state [(0, 1000, ex_req ''NEW_TRADE'' 5)]) 3000 1003
            (ex_req ''NEW_TRADE'' 5))
     = Received (JStr ''M'') (JStr ''NEW_TRADE'') (JInt 5) ''5_NEW_TRADE_1003''
   \<and> queue_of (snd (upload_signal (ingest_all init_state [(0, 1000, ex_req ''NEW_TRADE'' 5)])
                      3000 1003 (ex_req_sym ''NEW_TRADE'' 5 ''GBPUSD''))) (JStr ''M'')
     = [stamp 0 1000 (ex_req ''NEW_TRADE'' 5), stamp 3000 1003 (ex_req_sym ''NEW_TRADE'' 5 ''GBPUSD'')]
   \<and> queue_of (snd (upload_signal (ingest_all init_state [(0, 1000, ex_req ''NEW_TRADE'' 5)])
                      3000 1003 (ex_req ''NEW_PENDING'' 5))) (JStr ''M'')
     = [stamp 0 1000 (ex_req ''NEW_TRADE'' 5), stamp 3000 1003 (ex_req ''NEW_PENDING'' 5)]
   \<and> queue_of (snd (upload_signal (ingest_all init_state [(0, 1000, ex_req ''NEW_TRADE'' 5)])
                      3000 1003 (ex_req ''NEW_TRADE'' 6))) (JStr ''M'')
     = [stamp 0 1000 (ex_req ''NEW_TRADE'' 5), stamp 3000 1003 (ex_req ''NEW_TRADE'' 6)]"
proof -
  let ?d = "ex_req ''NEW_TRADE'' 5"
  let ?st1 = "ingest_all init_state [(0, 1000, ?d)]"
  have fields: "dget ?d ''master_id'' = JStr ''M''" "dget ?d ''master_ticket'' = JInt 5"
      "dget ?d ''action'' = JStr ''NEW_TRADE''" "dget ?d ''symbol'' = JStr ''EURUSD''"
      "has_key ?d ''symbol''"
    by (simp_all add: ex_req_def dget_def has_key_def)
  have stamped: "data (stamp 0 1000 ?d) = ?d"
    by (simp add: stamp_def)
  have empty: "queue_of init_state (JStr ''M'') = []"
    by (simp add: queue_of_def init_state_def)
  have sid: "signal_id (stamp 3000 1003 ?d) = ''5_NEW_TRADE_1003''"
    by code_simp
  note first = upload_signal_dedup [of ?d "''NEW_TRADE''" ?d init_state 0 1000 3000 1003]
  note again = upload_signal_dedup [of ?d "''NEW_TRADE''" ?d ?st1 3000 1003 3000 1003]
  have one: "queue_of ?st1 (JStr ''M'') = [stamp 0 1000 ?d]"
    using first by (simp add: fields py_eq_refl empty cap_queue_def)
  have two: "queue_of (ingest_all init_state [(0, 1000, ?d), (3000, 1003, ?d)]) (JStr ''M'')
               = [stamp 0 1000 ?d]"
    using first one by (simp add: fields py_eq_refl empty)
  have answer: "fst (upload_signal ?st1 3000 1003 ?d)
     = Received (JStr ''M'') (JStr ''NEW_TRADE'') (JInt 5) ''5_NEW_TRADE_1003''"
    using again by (simp add: fields py_eq_refl sid)
  let ?g = "ex_req_sym ''NEW_TRADE'' 5 ''GBPUSD''"
  have g_fields: "dget ?g ''master_id'' = JStr ''M''" "dget ?g ''master_ticket'' = JInt 5"
      "dget ?g ''action'' = JStr ''NEW_TRADE''" "dget ?g ''symbol'' = JStr ''GBPUSD''"
      "has_key ?g ''symbol''"
    by (simp_all add: ex_req_sym_def dget_def has_key_def)
  have inst: "queue_of (snd (upload_signal ?st1 3000 1003 ?g)) (dget ?g ''master_id'')
           = cap_queue
               (if \<exists>s \<in> set (queue_of ?st1 (dget ?g ''master_id'')).
                      py_eq (dget (data s) ''master_ticket'') (dget ?g ''master_ticket'')
                      \<and> py_eq (dget (data s) ''action'') (dget ?g ''action'')
                      \<and> py_eq (dget (data s) ''symbol'') (dget ?g ''symbol'')
                then queue_of ?st1 (dget ?g ''master_id'')
                else queue_of ?st1 (dget ?g ''master_id'') @ [stamp 3000 1003 ?g])"
    by (rule upload_signal_dedup [of ?g "''NEW_TRADE''" ?g ?st1 3000 1003 3000 1003, THEN conjunct1])
       (simp_all add: g_fields py_eq_refl)
  have no_match: "\<not> (\<exists>s \<in> set (queue_of ?st1 (JStr ''M'')).
                      py_eq (dget (data s) ''master_ticket'') (dget ?g ''master_ticket'')
                      \<and> py_eq (dget (data s) ''action'') (dget ?g ''action'')
                      \<and> py_eq (dget (data s) ''symbol'') (dget ?g ''symbol''))"
    unfolding one by (simp add: stamped fields g_fields py_eq_def)
  have other_symbol: "queue_of (snd (upload_signal ?st1 3000 1003 ?g)) (JStr ''M'')
                        = [stamp 0 1000 ?d, stamp 3000 1003 ?g]"
    using inst no_match unfolding g_fields(1) one
    by (simp add: cap_queue_def del: ingest_all.simps)
  let ?p = "ex_req ''NEW_PENDING'' 5"
  have other_action: "queue_of (snd (upload_signal ?st1 3000 1003 ?p)) (JStr ''M'')
                        = [stamp 0 1000 ?d, stamp 3000 1003 ?p]"
    by code_simp
  have other_ticket: "queue_of (snd (upload_signal ?st1 3000 1003 (ex_req ''NEW_TRADE'' 6))) (JStr ''M'')
                        = [stamp 0 1000 ?d, stamp 3000 1003 (ex_req ''NEW_TRADE'' 6)]"
    by code_simp
  show ?thesis
    using one two answer other_symbol other_action other_ticket by simp
qed

section \<open>Capacity\<close>

lemma upload_signal_received_queue:
  "fst (upload_signal st t ms d) = Received m a tk i \<Longrightarrow>
   queue_of (snd (upload_signal st t ms d)) (dget d ''master_id'')
     = cap_queue (enqueue d (stamp t ms d) (queue_of st (dget d ''master_id'')))"
  by (auto simp: upload_signal_def Let_def queue_of_def split: if_splits)

lemma upload_signal_bounded:
  assumes "queues_bounded st"
  shows "queues_bounded (snd (upload_signal st t ms d))"
  using assms by (auto simp: upload_signal_def Let_def length_cap_queue split: if_splits)

lemma cleanup_old_signals_bounded:
  assumes "queues_bounded st"
  shows "queues_bounded (cleanup_old_signals st now)"
proof (intro allI impI)
  fix m q
  assume "signals_queue (cleanup_old_signals st now) m = Some q"
  then obtain q0 where q0: "signals_queue st m = Some q0" and q: "q = filter (keep_signal now) q0"
    by (auto simp: cleanup_old_signals_def Let_def split: option.splits if_splits)
  have "length q \<le> length q0"
    unfolding q by (rule length_filter_le)
  with assms q0 show "length q \<le> 50"
    by fastforce
qed

lemma clear_signals_bounded:
  assumes "queues_bounded st"
  shows "queues_bounded (snd (clear_signals st d))"
  using assms by (auto simp: clear_signals_def Let_def split: if_splits)

lemma drop_Suc_append:
  "q \<noteq> [] \<Longrightarrow> drop (Suc n) (q @ zs) = drop n (drop 1 q @ zs)"
  by (cases q) simp_all

lemma ingest_all_new_trades:
  assumes "truthy m"
      and "\<forall>r \<in> set reqs. dget (snd (snd r)) ''master_id'' = m
                           \<and> dget (snd (snd r)) ''action'' = JStr ''NEW_TRADE''
                           \<and> dget (snd (snd r)) ''master_ticket'' \<noteq> JNull
                           \<and> has_key (snd (snd r)) ''symbol''"
      and "distinct (map (\<lambda>r. key_of (dget (snd (snd r)) ''master_ticket'')) reqs)"
      and "\<forall>s \<in> set (queue_of st m). \<forall>r \<in> set reqs.
              key_of (dget (data s) ''master_ticket'') \<noteq> key_of (dget (snd (snd r)) ''master_ticket'')"
      and "length (queue_of st m) \<le> 50"
  shows "queue_of (ingest_all st reqs) m
           = drop (length (queue_of st m) + length reqs - 50) (queue_of st m @ map stamp_req reqs)"
  using assms(2-)
proof (induction reqs arbitrary: st)
  case Nil
  then show ?case by simp
next
  case (Cons r reqs)
  obtain t ms d where r: "r = (t, ms, d)"
    by (cases r) auto
  let ?q = "queue_of st m"
  let ?sg = "stamp t ms d"
  let ?st1 = "snd (upload_signal st t ms d)"
  from Cons.prems(1) r have d: "dget d ''master_id'' = m" "dget d ''action'' = JStr ''NEW_TRADE''"
      "dget d ''master_ticket'' \<noteq> JNull" "has_key d ''symbol''"
    by auto
  have fresh: "\<not> is_duplicate d ?q"
    using Cons.prems(3) r by (auto simp: is_duplicate_iff same_signal_def py_eq_def)
  have "queue_of ?st1 (dget d ''master_id'')
          = cap_queue (enqueue d ?sg (queue_of st (dget d ''master_id'')))"
    by (rule upload_signal_accepted_queue [where a = "''NEW_TRADE''"])
       (use assms(1) d in simp_all)
  then have q1: "queue_of ?st1 m = drop (length ?q - 49) ?q @ [?sg]"
    using fresh d by (simp add: enqueue_new cap_queue_snoc)
  have sub: "set (queue_of ?st1 m) \<subseteq> insert ?sg (set ?q)"
    unfolding q1 by (auto dest: in_set_dropD)
  have own: "key_of (dget (data ?sg) ''master_ticket'') = key_of (dget d ''master_ticket'')"
    by (simp add: stamp_def)
  have p1: "\<forall>r \<in> set reqs. dget (snd (snd r)) ''master_id'' = m
                           \<and> dget (snd (snd r)) ''action'' = JStr ''NEW_TRADE''
                           \<and> dget (snd (snd r)) ''master_ticket'' \<noteq> JNull
                           \<and> has_key (snd (snd r)) ''symbol''"
    using Cons.prems(1) by simp
  have p2: "distinct (map (\<lambda>r. key_of (dget (snd (snd r)) ''master_ticket'')) reqs)"
    using Cons.prems(2) by simp
  have p3: "\<forall>s \<in> set (queue_of ?st1 m). \<forall>r \<in> set reqs.
              key_of (dget (data s) ''master_ticket'') \<noteq> key_of (dget (snd (snd r)) ''master_ticket'')"
  proof (intro ballI)
    fix s r'
    assume s: "s \<in> set (queue_of ?st1 m)" and r': "r' \<in> set reqs"
    from s sub have "s = ?sg \<or> s \<in> set ?q" by auto
    then show "key_of (dget (data s) ''master_ticket'') \<noteq> key_of (dget (snd (snd r')) ''master_ticket'')"
    proof
      assume "s = ?sg"
      then show ?thesis
        using Cons.prems(2) r r' by (auto simp: own)
    next
      assume "s \<in> set ?q"
      then show ?thesis
        using Cons.prems(3) r' by simp
    qed
  qed
  have p4: "length (queue_of ?st1 m) \<le> 50"
    using Cons.prems(4) by (simp add: q1)
  have step: "queue_of (ingest_all ?st1 reqs) m
           = drop (length (queue_of ?st1 m) + length reqs - 50) (queue_of ?st1 m @ map stamp_req reqs)"
    by (rule Cons.IH [OF p1 p2 p3 p4])
  have sr: "stamp_req (t, ms, d) = ?sg"
    by (simp add: stamp_req_def)
  show ?case
  proof (cases "length ?q = 50")
    case True
    then have ne: "?q \<noteq> []" by auto
    from True have q1': "queue_of ?st1 m = drop 1 ?q @ [?sg]"
      by (simp add: q1)
    have "length (queue_of ?st1 m) = 50"
      using True by (simp add: q1')
    then have "queue_of (ingest_all ?st1 reqs) m
                 = drop (length reqs) (drop 1 ?q @ ?sg # map stamp_req reqs)"
      using step by (simp add: q1')
    also have "\<dots> = drop (Suc (length reqs)) (?q @ ?sg # map stamp_req reqs)"
      by (rule drop_Suc_append [OF ne, symmetric])
    finally show ?thesis
      using True by (simp add: r sr)
  next
    case False
    with Cons.prems(4) have small: "length ?q \<le> 49" by simp
    then have "queue_of ?st1 m = ?q @ [?sg]"
      by (simp add: q1)
    then show ?thesis
      using step by (simp add: r sr)
  qed
qed

text \<open>
  Claim C5. After an accepted upload the master's queue is the last 50 entries of what the
  insertion policy produced, so it has at most 50 entries and loses entries at the front
  only. Every handler and the sweeper keep all queues at 50 entries or fewer, and the
  initial state has none. A run of \<^verbatim>\<open>NEW_TRADE\<close> uploads with pairwise different tickets
  for a master whose queue is empty leaves the last 50 of them, in upload order; for 60
  uploads these are the 50 most recent.
\<close>

theorem queue_capacity:
  "(fst (upload_signal st t ms d) = Received rm ra rt ri \<longrightarrow>
      queue_of (snd (upload_signal st t ms d)) (dget d ''master_id'')
        = drop (length (enqueue d (stamp t ms d) (queue_of st (dget d ''master_id''))) - 50)
               (enqueue d (stamp t ms d) (queue_of st (dget d ''master_id'')))
      \<and> length (queue_of (snd (upload_signal st t ms d)) (dget d ''master_id'')) \<le> 50)
   \<and> (queues_bounded st \<longrightarrow>
        queues_bounded (snd (upload_signal st t ms d))
        \<and> queues_bounded (cleanup_old_signals st now)
        \<and> queues_bounded (snd (clear_signals st cd))
        \<and> queues_bounded (snd (slave_poll iter st t_reg t_poll slave_arg master_arg))
        \<and> queues_bounded (snd (register_slave st t_reg t_poll rd)))
   \<and> queues_bounded init_state
   \<and> (truthy m \<and> queue_of st m = []
        \<and> (\<forall>r \<in> set reqs. dget (snd (snd r)) ''master_id'' = m
                           \<and> dget (snd (snd r)) ''action'' = JStr ''NEW_TRADE''
                           \<and> dget (snd (snd r)) ''master_ticket'' \<noteq> JNull
                           \<and> has_key (snd (snd r)) ''symbol'')
        \<and> distinct (map (\<lambda>r. key_of (dget (snd (snd r)) ''master_ticket'')) reqs)
      \<longrightarrow> queue_of (ingest_all st reqs) m = drop (length reqs - 50) (map stamp_req reqs))"
proof (intro conjI impI)
  assume got: "fst (upload_signal st t ms d) = Received rm ra rt ri"
  show "queue_of (snd (upload_signal st t ms d)) (dget d ''master_id'')
        = drop (length (enqueue d (stamp t ms d) (queue_of st (dget d ''master_id''))) - 50)
               (enqueue d (stamp t ms d) (queue_of st (dget d ''master_id'')))"
    using upload_signal_received_queue [OF got] by (simp add: cap_queue_drop)
  show "length (queue_of (snd (upload_signal st t ms d)) (dget d ''master_id'')) \<le> 50"
    using upload_signal_received_queue [OF got] by (simp add: length_cap_queue)
next
  assume b: "queues_bounded st"
  show "queues_bounded (snd (upload_signal st t ms d))"
    using b by (rule upload_signal_bounded)
  show "queues_bounded (cleanup_old_signals st now)"
    using b by (rule cleanup_old_signals_bounded)
  show "queues_bounded (snd (clear_signals st cd))"
    using b by (rule clear_signals_bounded)
  show "queues_bounded (snd (slave_poll iter st t_reg t_poll slave_arg master_arg))"
    using b by (simp add: slave_poll_queue)
  show "queues_bounded (snd (register_slave st t_reg t_poll rd))"
    using b by (simp add: register_slave_queue)
next
  show "queues_bounded init_state"
    by (simp add: init_state_def)
next
  assume h: "truthy m \<and> queue_of st m = []
        \<and> (\<forall>r \<in> set reqs. dget (snd (snd r)) ''master_id'' = m
                           \<and> dget (snd (snd r)) ''action'' = JStr ''NEW_TRADE''
                           \<and> dget (snd (snd r)) ''master_ticket'' \<noteq> JNull
                           \<and> has_key (snd (snd r)) ''symbol'')
        \<and> distinct (map (\<lambda>r. key_of (dget (snd (snd r)) ''master_ticket'')) reqs)"
  then have empty: "queue_of st m = []" by blast
  have "queue_of (ingest_all st reqs) m
           = drop (length (queue_of st m) + length reqs - 50) (queue_of st m @ map stamp_req reqs)"
    by (rule ingest_all_new_trades) (use h in \<open>simp_all add: empty\<close>)
  then show "queue_of (ingest_all st reqs) m = drop (length reqs - 50) (map stamp_req reqs)"
    by (simp add: empty)
qed

theorem queue_capacity_witness:
  "length ex_reqs60 = 60
   \<and> queue_of init_state (JStr ''M'') = []
   \<and> queue_of (ingest_all init_state ex_reqs60) (JStr ''M'') = drop 10 (map stamp_req ex_reqs60)
   \<and> length (queue_of (ingest_all init_state ex_reqs60) (JStr ''M'')) = 50
   \<and> \<not> (\<exists>m q. signals_queue (cleanup_old_signals init_state 0) m = Some q \<and> 50 < length q)
   \<and> fst (upload_signal init_state 0 1000 (ex_req ''NEW_TRADE'' 5))
       = Received (JStr ''M'') (JStr ''NEW_TRADE'') (JInt 5) ''5_NEW_TRADE_1000''
   \<and> length (queue_of (snd (upload_signal init_state 0 1000 (ex_req ''NEW_TRADE'' 5))) (JStr ''M'')) \<le> 50"
proof -
  have len: "length ex_reqs60 = 60"
    by (simp add: ex_reqs60_def)
  have empty: "queue_of init_state (JStr ''M'') = []"
    by (simp add: queue_of_def init_state_def)
  have valid: "\<forall>r \<in> set ex_reqs60. dget (snd (snd r)) ''master_id'' = JStr ''M''
                           \<and> dget (snd (snd r)) ''action'' = JStr ''NEW_TRADE''
                           \<and> dget (snd (snd r)) ''master_ticket'' \<noteq> JNull
                           \<and> has_key (snd (snd r)) ''symbol''"
    by (simp add: ex_reqs60_def ex_req_def dget_def has_key_def del: upt_rec_numeral)
  have tickets: "map (\<lambda>r. key_of (dget (snd (snd r)) ''master_ticket'')) ex_reqs60
                   = map (\<lambda>k. JInt (int k)) [1..<61]"
    by (simp add: ex_reqs60_def ex_req_def dget_def del: upt_rec_numeral)
  have dist: "distinct (map (\<lambda>r. key_of (dget (snd (snd r)) ''master_ticket'')) ex_reqs60)"
    unfolding tickets by (simp add: distinct_map inj_on_def del: upt_rec_numeral)
  have got: "fst (upload_signal init_state 0 1000 (ex_req ''NEW_TRADE'' 5))
       = Received (JStr ''M'') (JStr ''NEW_TRADE'') (JInt 5) ''5_NEW_TRADE_1000''"
    by code_simp
  have mid: "dget (ex_req ''NEW_TRADE'' 5) ''master_id'' = JStr ''M''"
    by (simp add: ex_req_def dget_def)
  have init: "queues_bounded init_state"
    by (simp add: init_state_def)
  note cap = queue_capacity [of init_state 0 1000 "ex_req ''NEW_TRADE'' 5" "JStr ''M''"
      "JStr ''NEW_TRADE''" "JInt 5" "''5_NEW_TRADE_1000''" 0 "[]" sorted_list_of_fset 0 0 None None "[]"
      "JStr ''M''" ex_reqs60]
  have hyp: "truthy (JStr ''M'') \<and> queue_of init_state (JStr ''M'') = []
        \<and> (\<forall>r \<in> set ex_reqs60. dget (snd (snd r)) ''master_id'' = JStr ''M''
                           \<and> dget (snd (snd r)) ''action'' = JStr ''NEW_TRADE''
                           \<and> dget (snd (snd r)) ''master_ticket'' \<noteq> JNull
                           \<and> has_key (snd (snd r)) ''symbol'')
        \<and> distinct (map (\<lambda>r. key_of (dget (snd (snd r)) ''master_ticket'')) ex_reqs60)"
    using empty valid dist by simp
  have "queue_of (ingest_all init_state ex_reqs60) (JStr ''M'')
          = drop (length ex_reqs60 - 50) (map stamp_req ex_reqs60)"
    by (rule mp [OF cap [THEN conjunct2, THEN conjunct2, THEN conjunct2] hyp])
  then have run: "queue_of (ingest_all init_state ex_reqs60) (JStr ''M'')
                    = drop 10 (map stamp_req ex_reqs60)"
    by (simp add: len)
  have run_len: "length (queue_of (ingest_all init_state ex_reqs60) (JStr ''M'')) = 50"
    by (simp add: run len)
  have "length (queue_of (snd (upload_signal init_state 0 1000 (ex_req ''NEW_TRADE'' 5)))
                  (dget (ex_req ''NEW_TRADE'' 5) ''master_id'')) \<le> 50"
    using mp [OF cap [THEN conjunct1] got] by (rule conjunct2)
  then have one: "length (queue_of (snd (upload_signal init_state 0 1000 (ex_req ''NEW_TRADE'' 5)))
                    (JStr ''M'')) \<le> 50"
    by (simp only: mid)
  have swept: "queues_bounded (cleanup_old_signals init_state 0)"
    using mp [OF cap [THEN conjunct2, THEN conjunct1] init] by (elim conjE)
  have swept_all: "\<not> (\<exists>m q. signals_queue (cleanup_old_signals init_state 0) m = Some q
                          \<and> 50 < length q)"
  proof
    assume "\<exists>m q. signals_queue (cleanup_old_signals init_state 0) m = Some q \<and> 50 < length q"
    then obtain m q where "signals_queue (cleanup_old_signals init_state 0) m = Some q"
        and long: "50 < length q"
      by blast
    with swept have "length q \<le> 50" by blast
    with long show False by simp
  qed
  show ?thesis
    by (intro conjI len empty run run_len swept_all got one)
qed

end
